theory Spec2Isabelle
  imports
    Complex_Main
    "HOL-Library.Char_ord"
    "HOL-Library.List_Lexorder"
begin

section \<open>Python values\<close>

text \<open>
  Python lists are HOL lists and a raised exception is the left injection of a sum. Text that
  the pipeline reads (turn texts, names, dictionary keys) is a HOL \<open>string\<close>: its characters
  are the code points below 256, with the case mappings and the white space that Python
  gives these code points. Title-casing can leave this range, and a diarization label can
  hold any code point that \<open>chr\<close> accepts, so the strings that are only produced are lists of
  code points.
\<close>

datatype error = ValueError | IndexError | ZeroDivisionError

type_synonym ustr = "nat list"

definition ustr_of :: "string \<Rightarrow> ustr" where
  "ustr_of s = map of_char s"

text \<open>\<open>chr(n)\<close>: a one-character string, ValueError outside \<open>range(0x110000)\<close>.\<close>

definition py_chr :: "nat \<Rightarrow> error + nat" where
  "py_chr n = (if n < 1114112 then Inr n else Inl ValueError)"

text \<open>\<open>xs[i]\<close> for a non-negative index.\<close>

definition py_index :: "'a list \<Rightarrow> nat \<Rightarrow> error + 'a" where
  "py_index xs i = (if i < length xs then Inr (xs ! i) else Inl IndexError)"

subsection \<open>Floats\<close>

text \<open>
  A Python float is an IEEE 754 double: a real number, an infinity or a NaN. The two zeros
  are not told apart, since no operation below depends on the sign of a zero. Comparisons
  are exact and false on NaN.
\<close>

datatype pyfloat = Fin real | PInf | NInf | NaN

fun flt :: "pyfloat \<Rightarrow> pyfloat \<Rightarrow> bool" where
  "flt (Fin a) (Fin b) = (a < b)"
| "flt (Fin a) PInf = True"
| "flt NInf (Fin b) = True"
| "flt NInf PInf = True"
| "flt a b = False"

fun feq :: "pyfloat \<Rightarrow> pyfloat \<Rightarrow> bool" where
  "feq (Fin a) (Fin b) = (a = b)"
| "feq PInf PInf = True"
| "feq NInf NInf = True"
| "feq a b = False"

definition fgt :: "pyfloat \<Rightarrow> pyfloat \<Rightarrow> bool" where
  "fgt a b = flt b a"

definition fge :: "pyfloat \<Rightarrow> pyfloat \<Rightarrow> bool" where
  "fge a b = (flt b a \<or> feq a b)"

text \<open>\<open>max(a, b)\<close> on two floats: \<open>b\<close> when \<open>b > a\<close>, otherwise \<open>a\<close>.\<close>

definition py_max :: "pyfloat \<Rightarrow> pyfloat \<Rightarrow> pyfloat" where
  "py_max a b = (if fgt b a then b else a)"

text \<open>
  Rounding to the nearest double, ties to the even significand: 53 significant bits, the
  smallest exponent of a unit in the last place is -1074, and a result of magnitude
  \<open>2 ^ 1024\<close> or more overflows to an infinity.
\<close>

definition round_even :: "real \<Rightarrow> int" where
  "round_even q =
     (let f = \<lfloor>q\<rfloor>; r = q - of_int f
      in if r < 1 / 2 then f
         else if 1 / 2 < r then f + 1
         else if even f then f else f + 1)"

definition rnd :: "real \<Rightarrow> pyfloat" where
  "rnd x =
     (if x = 0 then Fin 0
      else (let e = max (- 1074) (\<lfloor>log 2 \<bar>x\<bar>\<rfloor> - 52);
                y = of_int (round_even (x / 2 powr of_int e)) * 2 powr of_int e
            in if 2 ^ 1024 \<le> \<bar>y\<bar> then (if 0 < x then PInf else NInf) else Fin y))"

fun fl_neg :: "pyfloat \<Rightarrow> pyfloat" where
  "fl_neg (Fin a) = Fin (- a)"
| "fl_neg PInf = NInf"
| "fl_neg NInf = PInf"
| "fl_neg NaN = NaN"

fun fl_add :: "pyfloat \<Rightarrow> pyfloat \<Rightarrow> pyfloat" where
  "fl_add (Fin a) (Fin b) = rnd (a + b)"
| "fl_add NaN b = NaN"
| "fl_add a NaN = NaN"
| "fl_add PInf NInf = NaN"
| "fl_add NInf PInf = NaN"
| "fl_add PInf b = PInf"
| "fl_add NInf b = NInf"
| "fl_add a PInf = PInf"
| "fl_add a NInf = NInf"

definition fl_sub :: "pyfloat \<Rightarrow> pyfloat \<Rightarrow> pyfloat" where
  "fl_sub a b = fl_add a (fl_neg b)"

text \<open>The sign of a float that is not NaN: negative, zero or positive.\<close>

fun fl_sign :: "pyfloat \<Rightarrow> int" where
  "fl_sign (Fin a) = (if a < 0 then - 1 else if a = 0 then 0 else 1)"
| "fl_sign PInf = 1"
| "fl_sign NInf = - 1"
| "fl_sign NaN = 0"

definition signed_inf :: "int \<Rightarrow> pyfloat" where
  "signed_inf s = (if s < 0 then NInf else PInf)"

fun fl_mul :: "pyfloat \<Rightarrow> pyfloat \<Rightarrow> pyfloat" where
  "fl_mul (Fin a) (Fin b) = rnd (a * b)"
| "fl_mul NaN b = NaN"
| "fl_mul a NaN = NaN"
| "fl_mul a b =
     (if fl_sign a = 0 \<or> fl_sign b = 0 then NaN else signed_inf (fl_sign a * fl_sign b))"

text \<open>\<open>a / b\<close> on floats: a zero divisor raises ZeroDivisionError.\<close>

fun fl_div :: "pyfloat \<Rightarrow> pyfloat \<Rightarrow> error + pyfloat" where
  "fl_div a (Fin b) =
     (if b = 0 then Inl ZeroDivisionError
      else (case a of
              Fin x \<Rightarrow> Inr (rnd (x / b))
            | NaN \<Rightarrow> Inr NaN
            | _ \<Rightarrow> Inr (signed_inf (fl_sign a * fl_sign (Fin b)))))"
| "fl_div a NaN = Inr NaN"
| "fl_div (Fin x) b = Inr (Fin 0)"
| "fl_div a b = Inr NaN"

text \<open>\<open>math.sqrt\<close>: correctly rounded, ValueError on a negative argument.\<close>

fun math_sqrt :: "pyfloat \<Rightarrow> error + pyfloat" where
  "math_sqrt (Fin a) = (if a < 0 then Inl ValueError else Inr (rnd (sqrt a)))"
| "math_sqrt PInf = Inr PInf"
| "math_sqrt NInf = Inl ValueError"
| "math_sqrt NaN = Inr NaN"

text \<open>\<open>sum\<close> of floats: the items are added to 0 from left to right.\<close>

definition py_sum :: "pyfloat list \<Rightarrow> pyfloat" where
  "py_sum xs = foldl fl_add (Fin 0) xs"

subsection \<open>String methods\<close>

definition py_isspace :: "char \<Rightarrow> bool" where
  "py_isspace c =
     (let n = (of_char c :: nat)
      in (9 \<le> n \<and> n \<le> 13) \<or> (28 \<le> n \<and> n \<le> 32) \<or> n = 133 \<or> n = 160)"

text \<open>
  The characters with a lower-case mapping: A to Z and the capital letters from U+00C0 to
  U+00DE, without the multiplication sign U+00D7.
\<close>

definition is_upper :: "char \<Rightarrow> bool" where
  "is_upper c =
     (let n = (of_char c :: nat)
      in (65 \<le> n \<and> n \<le> 90) \<or> (192 \<le> n \<and> n \<le> 222 \<and> n \<noteq> 215))"

text \<open>
  The cased characters: the letters of both cases, the ordinal indicators U+00AA and U+00BA
  and the micro sign U+00B5.
\<close>

definition is_cased :: "char \<Rightarrow> bool" where
  "is_cased c =
     (let n = (of_char c :: nat)
      in (65 \<le> n \<and> n \<le> 90) \<or> (97 \<le> n \<and> n \<le> 122) \<or> n = 170 \<or> n = 181 \<or> n = 186
         \<or> (192 \<le> n \<and> n \<noteq> 215 \<and> n \<noteq> 247))"

definition lower_char :: "char \<Rightarrow> char" where
  "lower_char c = (if is_upper c then char_of ((of_char c :: nat) + 32) else c)"

text \<open>
  The title-case mapping of a character: the capital letter of a small letter; U+00B5 maps to
  U+039C, U+00FF to U+0178 and the sharp s U+00DF to the two letters "Ss".
\<close>

definition title_char :: "char \<Rightarrow> ustr" where
  "title_char c =
     (let n = (of_char c :: nat)
      in if (97 \<le> n \<and> n \<le> 122) \<or> (224 \<le> n \<and> n \<le> 254 \<and> n \<noteq> 247) then [n - 32]
         else if n = 181 then [924]
         else if n = 223 then [83, 115]
         else if n = 255 then [376]
         else [n])"

text \<open>\<open>s.lower()\<close>.\<close>

definition py_lower :: "string \<Rightarrow> string" where
  "py_lower s = map lower_char s"

text \<open>
  \<open>s.title()\<close>: a character after a cased character is lower-cased, any other character is
  title-cased.
\<close>

fun title_from :: "bool \<Rightarrow> string \<Rightarrow> ustr" where
  "title_from previous_is_cased [] = []"
| "title_from previous_is_cased (c # cs) =
     (if previous_is_cased then [of_char (lower_char c)] else title_char c)
       @ title_from (is_cased c) cs"

definition py_title :: "string \<Rightarrow> ustr" where
  "py_title s = title_from False s"

text \<open>\<open>s.split()\<close>: the maximal runs of characters that are not whitespace.\<close>

fun split_from :: "string \<Rightarrow> string \<Rightarrow> string list" where
  "split_from word [] = (if word = [] then [] else [word])"
| "split_from word (c # cs) =
     (if py_isspace c
      then (if word = [] then split_from [] cs else word # split_from [] cs)
      else split_from (word @ [c]) cs)"

definition py_split :: "string \<Rightarrow> string list" where
  "py_split s = split_from [] s"

text \<open>\<open>s.strip()\<close> and \<open>s.strip(chars)\<close>: both ends are stripped.\<close>

definition strip_where :: "(char \<Rightarrow> bool) \<Rightarrow> string \<Rightarrow> string" where
  "strip_where p s = rev (dropWhile p (rev (dropWhile p s)))"

definition py_strip :: "string \<Rightarrow> string" where
  "py_strip s = strip_where py_isspace s"

definition py_strip_chars :: "string \<Rightarrow> string \<Rightarrow> string" where
  "py_strip_chars chars s = strip_where (\<lambda>c. c \<in> set chars) s"

text \<open>
  The first occurrence of a non-empty separator: the text before it and the text after it.
  \<open>sep in s\<close> and \<open>s.split(sep, 1)\<close> both read it.
\<close>

fun py_partition :: "string \<Rightarrow> string \<Rightarrow> (string \<times> string) option" where
  "py_partition sep [] = None"
| "py_partition sep (c # cs) =
     (if take (length sep) (c # cs) = sep then Some ([], drop (length sep) (c # cs))
      else (case py_partition sep cs of
              None \<Rightarrow> None
            | Some (before, after) \<Rightarrow> Some (c # before, after)))"

definition py_contains :: "string \<Rightarrow> string \<Rightarrow> bool" where
  "py_contains sep s = (py_partition sep s \<noteq> None)"

definition py_split1 :: "string \<Rightarrow> string \<Rightarrow> string list" where
  "py_split1 sep s =
     (case py_partition sep s of None \<Rightarrow> [s] | Some (before, after) \<Rightarrow> [before, after])"

section \<open>audio/diarization.py\<close>

record DiarizationSegment =
  seg_start :: pyfloat
  seg_end :: pyfloat
  seg_speaker_label :: ustr
  seg_confidence :: pyfloat

record SimpleEnergyDiarizer =
  min_duration :: pyfloat
  max_duration :: pyfloat

definition MIN_SEGMENT_DURATION :: pyfloat where
  "MIN_SEGMENT_DURATION = Fin (5 / 2)"

definition MAX_SEGMENT_DURATION :: pyfloat where
  "MAX_SEGMENT_DURATION = Fin 15"

text \<open>\<open>x or default\<close> on an optional float: None and 0.0 are falsy.\<close>

definition float_or :: "pyfloat option \<Rightarrow> pyfloat \<Rightarrow> pyfloat" where
  "float_or x d = (case x of None \<Rightarrow> d | Some v \<Rightarrow> if v = Fin 0 then d else v)"

definition SimpleEnergyDiarizer_init ::
  "pyfloat option \<Rightarrow> pyfloat option \<Rightarrow> SimpleEnergyDiarizer" where
  "SimpleEnergyDiarizer_init mn mx =
     \<lparr>min_duration = float_or mn MIN_SEGMENT_DURATION,
      max_duration = float_or mx MAX_SEGMENT_DURATION\<rparr>"

text \<open>
  The generator \<open>(chr(ord("A") + idx) for idx in itertools.count())\<close> is the number of
  elements already taken; \<open>next\<close> yields the character or raises what \<open>chr\<close> raises.
\<close>

definition speaker_cycle_next :: "nat \<Rightarrow> error + (nat \<times> nat)" where
  "speaker_cycle_next idx =
     (case py_chr (65 + idx) of Inl e \<Rightarrow> Inl e | Inr c \<Rightarrow> Inr (c, Suc idx))"

text \<open>\<open>f"Speaker {current_speaker}"\<close>.\<close>

definition speaker_label_of :: "nat \<Rightarrow> ustr" where
  "speaker_label_of current_speaker = ustr_of ''Speaker '' @ [current_speaker]"

definition new_segment :: "pyfloat \<Rightarrow> pyfloat \<Rightarrow> nat \<Rightarrow> DiarizationSegment" where
  "new_segment s e current_speaker =
     \<lparr>seg_start = s, seg_end = e,
      seg_speaker_label = speaker_label_of current_speaker,
      seg_confidence = Fin (1 / 2)\<rparr>"

text \<open>
  The loop of \<open>diarize\<close>; its state is the generator, the current speaker, the running total
  and the segments emitted so far. The subtraction and the addition round.
\<close>

fun diarize_loop ::
  "pyfloat \<Rightarrow> (pyfloat \<times> pyfloat) list \<Rightarrow> nat \<Rightarrow> nat \<Rightarrow> pyfloat \<Rightarrow> DiarizationSegment list
     \<Rightarrow> error + DiarizationSegment list" where
  "diarize_loop mx [] idx current_speaker total_duration segments = Inr segments"
| "diarize_loop mx ((s, e) # timestamps) idx current_speaker total_duration segments =
     (let duration = py_max (Fin 0) (fl_sub e s);
          total = fl_add total_duration duration
      in if fgt duration mx \<and> length segments > 0 then
           (case speaker_cycle_next idx of
              Inl err \<Rightarrow> Inl err
            | Inr (c, idx') \<Rightarrow>
                diarize_loop mx timestamps idx' c total (segments @ [new_segment s e c]))
         else if fge total mx then
           (case speaker_cycle_next idx of
              Inl err \<Rightarrow> Inl err
            | Inr (c, idx') \<Rightarrow>
                diarize_loop mx timestamps idx' c (Fin 0) (segments @ [new_segment s e c]))
         else
           diarize_loop mx timestamps idx current_speaker total
             (segments @ [new_segment s e current_speaker]))"

definition diarize ::
  "SimpleEnergyDiarizer \<Rightarrow> (pyfloat \<times> pyfloat) list \<Rightarrow> error + DiarizationSegment list" where
  "diarize self timestamps =
     (if timestamps = [] then Inr []
      else (case speaker_cycle_next 0 of
              Inl err \<Rightarrow> Inl err
            | Inr (c, idx) \<Rightarrow> diarize_loop (max_duration self) timestamps idx c (Fin 0) []))"

text \<open>
  The duration the loop computes for an utterance, and the running total it has accumulated
  after a run of utterances none of which reset it.
\<close>

definition utterance_duration :: "pyfloat \<times> pyfloat \<Rightarrow> pyfloat" where
  "utterance_duration u = py_max (Fin 0) (fl_sub (snd u) (fst u))"

definition running_total :: "(pyfloat \<times> pyfloat) list \<Rightarrow> pyfloat" where
  "running_total us = foldl fl_add (Fin 0) (map utterance_duration us)"

text \<open>The time span a segment carries.\<close>

definition span_of :: "DiarizationSegment \<Rightarrow> pyfloat \<times> pyfloat" where
  "span_of seg = (seg_start seg, seg_end seg)"

section \<open>audio/features.py\<close>

text \<open>
  The speaking rate is a single quotient of a word count and a clamped duration; it is stated
  over the reals that the doubles stand for.
\<close>

record FeatureSet =
  mean_pitch :: real
  pitch_std :: real
  speaking_rate :: real
  energy_mean :: real
  energy_std :: real
  spectral_centroid_mean :: real
  spectral_centroid_std :: real

text \<open>\<open>mean\<close> and \<open>std\<close> as the module's own stand-in for numpy defines them.\<close>

definition np_mean :: "real list \<Rightarrow> real" where
  "np_mean values = (if values = [] then 0 else sum_list values / real (length values))"

definition np_std :: "real list \<Rightarrow> real" where
  "np_std values =
     (if values = [] then 0
      else (let m = np_mean values
            in sqrt (sum_list (map (\<lambda>v. (v - m)\<^sup>2) values) / real (length values))))"

definition total_words :: "string list \<Rightarrow> nat" where
  "total_words transcript_texts = sum_list (map (\<lambda>txt. length (py_split txt)) transcript_texts)"

definition compute_speaking_rate :: "string list \<Rightarrow> real \<Rightarrow> real" where
  "compute_speaking_rate transcript_texts duration =
     (if duration \<le> 0 then 0
      else real (total_words transcript_texts) / (duration / 60))"

text \<open>
  \<open>extract_features\<close>; the pitch, energy and spectral-centroid samples of the segment come
  from the signal-analysis library and are parameters here.
\<close>

definition extract_features ::
  "real list \<Rightarrow> real list \<Rightarrow> real list \<Rightarrow> string list \<Rightarrow> real \<Rightarrow> real \<Rightarrow> FeatureSet" where
  "extract_features pitch energy centroid transcript_texts start end =
     \<lparr>mean_pitch = np_mean pitch,
      pitch_std = np_std pitch,
      speaking_rate = compute_speaking_rate transcript_texts (max 1 (end - start)),
      energy_mean = np_mean energy,
      energy_std = np_std energy,
      spectral_centroid_mean = np_mean centroid,
      spectral_centroid_std = np_std centroid\<rparr>"

section \<open>audio/psychometrics.py\<close>

text \<open>The keyword sets; a set is iterated as a list without repetitions.\<close>

definition BASIC_EMOTION_KEYWORDS :: "(string \<times> string list) list" where
  "BASIC_EMOTION_KEYWORDS =
     [(''excited'', [''excited'', ''thrilled'', ''pumped'', ''energetic'']),
      (''angry'', [''angry'', ''furious'', ''frustrated'', ''mad'']),
      (''happy'', [''happy'', ''glad'', ''pleased'', ''delighted'']),
      (''sad'', [''sad'', ''upset'', ''down'', ''unhappy'']),
      (''fun'', [''fun'', ''enjoy'', ''laugh'', ''joke'', ''humor''])]"

text \<open>
  The tokens that \<open>Counter\<close> counts; \<open>word_counts.get(keyword, 0)\<close> is then
  \<open>count_list\<close> on them.
\<close>

definition counted_tokens :: "string \<Rightarrow> string list" where
  "counted_tokens combined_text =
     map (\<lambda>token. py_lower (py_strip_chars ''.,!?'' token)) (py_split combined_text)"

definition keyword_scores :: "string \<Rightarrow> (string \<times> real) list" where
  "keyword_scores combined_text =
     (let word_counts = counted_tokens combined_text
      in map (\<lambda>(metric, kws).
                (metric, real (sum_list (map (\<lambda>keyword. count_list word_counts keyword) kws))))
           BASIC_EMOTION_KEYWORDS)"

section \<open>models.py and pipeline.py\<close>

record SpeakerTurn =
  speaker_label :: string
  start :: pyfloat
  turn_end :: pyfloat
  turn_text :: string
  speaker_name :: "string option"
  confidence :: "pyfloat option"

text \<open>
  A dictionary from strings to floats is an association list with distinct keys. A row of
  \<open>get_all_speakers\<close> is an id, a name, a feature vector, stats and psychometrics.
\<close>

type_synonym float_dict = "(string \<times> pyfloat) list"

type_synonym speaker_row = "int \<times> string \<times> float_dict \<times> float_dict \<times> float_dict"

record best_match =
  match_speaker_id :: int
  match_speaker_name :: string
  match_score :: pyfloat

text \<open>The double that the literal \<open>0.82\<close> denotes.\<close>

definition FEATURE_SIMILARITY_THRESHOLD :: pyfloat where
  "FEATURE_SIMILARITY_THRESHOLD = Fin (7385903388887613 / 9007199254740992)"

text \<open>\<open>_vectorize\<close>: the values of the dictionary in the order of its sorted keys.\<close>

definition vectorize :: "float_dict \<Rightarrow> pyfloat list" where
  "vectorize feature_dict = map snd (sort_key fst feature_dict)"

text \<open>
  \<open>_cosine_similarity\<close> as it is computed without numpy, in double arithmetic. With numpy the
  dot product and the norms are numpy's own, and the dot product of two arrays of different
  lengths raises ValueError; the matching below therefore takes the similarity it calls as
  a parameter, and what is proved of it holds for either.
\<close>

definition cosine_similarity :: "pyfloat list \<Rightarrow> pyfloat list \<Rightarrow> error + pyfloat" where
  "cosine_similarity a b =
     (let dot = py_sum (map (\<lambda>(x, y). fl_mul x y) (zip a b))
      in case math_sqrt (py_sum (map (\<lambda>x. fl_mul x x) a)) of
           Inl err \<Rightarrow> Inl err
         | Inr norm_a \<Rightarrow>
             (case math_sqrt (py_sum (map (\<lambda>y. fl_mul y y) b)) of
                Inl err \<Rightarrow> Inl err
              | Inr norm_b \<Rightarrow>
                  if feq norm_a (Fin 0) \<or> feq norm_b (Fin 0) then Inr (Fin 0)
                  else fl_div dot (fl_mul norm_a norm_b)))"

text \<open>
  \<open>if team_members and name not in team_members: continue\<close>; None and the empty list are
  both falsy.
\<close>

definition skipped :: "string list option \<Rightarrow> string \<Rightarrow> bool" where
  "skipped team_members name =
     (case team_members of
        None \<Rightarrow> False
      | Some members \<Rightarrow> members \<noteq> [] \<and> name \<notin> set members)"

text \<open>The loop of \<open>_match_speaker\<close>; \<open>similarity\<close> is the method \<open>_cosine_similarity\<close>.\<close>

fun match_loop ::
  "(pyfloat list \<Rightarrow> pyfloat list \<Rightarrow> error + pyfloat) \<Rightarrow> pyfloat list \<Rightarrow> string list option
     \<Rightarrow> speaker_row list \<Rightarrow> pyfloat \<Rightarrow> best_match option \<Rightarrow> error + best_match option" where
  "match_loop similarity vector team_members [] best_score best = Inr best"
| "match_loop similarity vector team_members
       ((speaker_id, name, feature_vector, stats, psych) # rows) best_score best =
     (if skipped team_members name
      then match_loop similarity vector team_members rows best_score best
      else (case similarity vector (vectorize feature_vector) of
              Inl err \<Rightarrow> Inl err
            | Inr score \<Rightarrow>
                if fgt score best_score \<and> fge score FEATURE_SIMILARITY_THRESHOLD
                then match_loop similarity vector team_members rows score
                       (Some \<lparr>match_speaker_id = speaker_id, match_speaker_name = name,
                              match_score = score\<rparr>)
                else match_loop similarity vector team_members rows best_score best))"

text \<open>\<open>_match_speaker\<close>, on the profile's feature dictionary and the rows of the store.\<close>

definition match_speaker ::
  "(pyfloat list \<Rightarrow> pyfloat list \<Rightarrow> error + pyfloat) \<Rightarrow> speaker_row list \<Rightarrow> float_dict
     \<Rightarrow> string list option \<Rightarrow> error + best_match option" where
  "match_speaker similarity known_speakers features team_members =
     (if known_speakers = [] then Inr None
      else match_loop similarity (vectorize features) team_members known_speakers (Fin 0) None)"

text \<open>The score the loop computes for a row.\<close>

definition row_name :: "speaker_row \<Rightarrow> string" where
  "row_name row = fst (snd row)"

definition row_id :: "speaker_row \<Rightarrow> int" where
  "row_id row = fst row"

definition row_score ::
  "(pyfloat list \<Rightarrow> pyfloat list \<Rightarrow> error + pyfloat) \<Rightarrow> pyfloat list \<Rightarrow> speaker_row
     \<Rightarrow> error + pyfloat" where
  "row_score similarity vector row = similarity vector (vectorize (fst (snd (snd row))))"

text \<open>
  A row is rejected at a best score when the loop skips it or computes a score that does not
  both exceed the best score and reach the threshold. It is below a score when the loop
  skips it or computes a score that does not reach that score, and at most a score when
  the loop skips it or computes a score that does not exceed that score.
\<close>

definition row_rejected ::
  "(pyfloat list \<Rightarrow> pyfloat list \<Rightarrow> error + pyfloat) \<Rightarrow> pyfloat list \<Rightarrow> string list option
     \<Rightarrow> pyfloat \<Rightarrow> speaker_row \<Rightarrow> bool" where
  "row_rejected similarity vector team_members best_score row =
     (skipped team_members (row_name row)
      \<or> (case row_score similarity vector row of
            Inl err \<Rightarrow> False
          | Inr s \<Rightarrow> \<not> (fgt s best_score \<and> fge s FEATURE_SIMILARITY_THRESHOLD)))"

definition row_below ::
  "(pyfloat list \<Rightarrow> pyfloat list \<Rightarrow> error + pyfloat) \<Rightarrow> pyfloat list \<Rightarrow> string list option
     \<Rightarrow> pyfloat \<Rightarrow> speaker_row \<Rightarrow> bool" where
  "row_below similarity vector team_members s0 row =
     (skipped team_members (row_name row)
      \<or> (case row_score similarity vector row of Inl err \<Rightarrow> False | Inr s \<Rightarrow> \<not> fge s s0))"

definition row_at_most ::
  "(pyfloat list \<Rightarrow> pyfloat list \<Rightarrow> error + pyfloat) \<Rightarrow> pyfloat list \<Rightarrow> string list option
     \<Rightarrow> pyfloat \<Rightarrow> speaker_row \<Rightarrow> bool" where
  "row_at_most similarity vector team_members s0 row =
     (skipped team_members (row_name row)
      \<or> (case row_score similarity vector row of Inl err \<Rightarrow> False | Inr s \<Rightarrow> \<not> fgt s s0))"

definition match_of :: "speaker_row \<Rightarrow> pyfloat \<Rightarrow> best_match" where
  "match_of row score =
     \<lparr>match_speaker_id = row_id row, match_speaker_name = row_name row, match_score = score\<rparr>"

subsection \<open>Name inference\<close>

definition name_keywords :: "string list" where
  "name_keywords = [''i am'', ''my name is'', ''this is'']"

text \<open>
  The inner loop of \<open>_infer_names\<close> over the keywords, for one lower-cased text. The names
  inferred so far are title-cased; the name tested against them is not.
\<close>

fun infer_keywords :: "string \<Rightarrow> string list \<Rightarrow> ustr list \<Rightarrow> error + ustr list" where
  "infer_keywords lower [] inferred = Inr inferred"
| "infer_keywords lower (keyword # rest) inferred =
     (if py_contains keyword lower then
        (case py_index (py_split1 keyword lower) 1 of
           Inl err \<Rightarrow> Inl err
         | Inr after \<Rightarrow>
             (let segment = py_strip after
              in case py_index (py_split segment) 0 of
                   Inl err \<Rightarrow> Inl err
                 | Inr name \<Rightarrow>
                     if name \<noteq> [] \<and> ustr_of name \<notin> set inferred
                     then infer_keywords lower rest (inferred @ [py_title name])
                     else infer_keywords lower rest inferred))
      else infer_keywords lower rest inferred)"

fun infer_turns :: "SpeakerTurn list \<Rightarrow> ustr list \<Rightarrow> error + ustr list" where
  "infer_turns [] inferred = Inr inferred"
| "infer_turns (turn # turns) inferred =
     (case infer_keywords (py_lower (turn_text turn)) name_keywords inferred of
        Inl err \<Rightarrow> Inl err
      | Inr inferred' \<Rightarrow> infer_turns turns inferred')"

definition infer_names :: "SpeakerTurn list \<Rightarrow> error + ustr list" where
  "infer_names turns = infer_turns turns []"

text \<open>A turn that carries only a label, a span and a text.\<close>

definition turn_of :: "string \<Rightarrow> pyfloat \<Rightarrow> pyfloat \<Rightarrow> string \<Rightarrow> SpeakerTurn" where
  "turn_of label s e txt =
     \<lparr>speaker_label = label, start = s, turn_end = e, turn_text = txt,
      speaker_name = None, confidence = None\<rparr>"

subsection \<open>A specification of name inference\<close>






section \<open>Properties of double arithmetic\<close>

lemma round_even_of_int: "round_even (of_int z) = z"
  by (simp add: round_even_def)

text \<open>An integer of magnitude below \<open>2 ^ 53\<close> is a double: rounding leaves it as it is.\<close>

lemma rnd_of_int:
  assumes "\<bar>n\<bar> < 2 ^ 53"
  shows "rnd (of_int n) = Fin (of_int n)"
proof (cases "n = 0")
  case True
  then show ?thesis by (simp add: rnd_def)
next
  case False
  define x :: real where "x = of_int n"
  define k where "k = \<lfloor>log 2 \<bar>x\<bar>\<rfloor>"
  have x1: "1 \<le> \<bar>x\<bar>" using False by (simp add: x_def del: of_int_abs flip: of_int_abs) 
  have x53: "\<bar>x\<bar> < 2 ^ 53"
  proof -
    have "real_of_int \<bar>n\<bar> < real_of_int (2 ^ 53)" using assms by (simp only: of_int_less_iff)
    then show ?thesis by (simp add: x_def)
  qed
  have "0 \<le> log 2 \<bar>x\<bar>" using x1 by simp
  then have k0: "0 \<le> k" by (simp add: k_def)
  have "log 2 \<bar>x\<bar> < 53"
  proof -
    have "(2 :: real) powr 53 = 2 ^ 53" by simp
    with x53 have "\<bar>x\<bar> < 2 powr 53" by (simp only:)
    moreover have "log 2 \<bar>x\<bar> < 53 \<longleftrightarrow> \<bar>x\<bar> < 2 powr 53"
      using x1 by (intro log_less_iff) auto
    ultimately show ?thesis by (simp only:)
  qed
  then have k52: "k \<le> 52" by (simp add: k_def floor_le_iff)
  define j where "j = nat (52 - k)"
  have e: "max (- 1074) (k - 52) = - int j"
    using k0 k52 by (simp add: j_def)
  have p: "2 powr of_int (- int j) = 1 / (2 :: real) ^ j"
    by (simp add: powr_minus powr_realpow divide_simps)
  have q: "x / (1 / 2 ^ j) = of_int (n * 2 ^ j)"
    by (simp add: x_def)
  have y: "of_int (round_even (x / (1 / 2 ^ j))) * (1 / 2 ^ j) = x"
    unfolding q round_even_of_int by (simp add: x_def)
  have big: "\<not> (2 :: real) ^ 1024 \<le> \<bar>x\<bar>"
  proof -
    have "(2 :: real) ^ 53 \<le> 2 ^ 1024" by (rule power_increasing) simp_all
    with x53 show ?thesis by linarith
  qed
  have "x \<noteq> 0" using x1 by auto
  then have "rnd x = Fin x"
    unfolding rnd_def Let_def k_def[symmetric] e p y using big by simp
  then show ?thesis by (simp add: x_def)
qed

lemma rnd_numeral:
  "(numeral w :: int) < 2 ^ 53 \<Longrightarrow> rnd (numeral w) = Fin (numeral w)"
  using rnd_of_int [of "numeral w"] by simp

lemma rnd_0: "rnd 0 = Fin 0"
  by (simp add: rnd_def)

lemma rnd_1: "rnd 1 = Fin 1"
  using rnd_of_int [of 1] by simp

lemmas rnd_small = rnd_numeral rnd_0 rnd_1

text \<open>
  A number of magnitude between \<open>2 ^ k\<close> and \<open>2 ^ (k + 1)\<close> is rounded on the grid of spacing
  \<open>2 ^ (k - 52)\<close>.
\<close>

lemma round_even_bounds:
  "\<bar>real_of_int (round_even q)\<bar> \<le> \<bar>q\<bar> + 1"
proof -
  have f: "real_of_int \<lfloor>q\<rfloor> \<le> q" "q < real_of_int \<lfloor>q\<rfloor> + 1"
    by linarith+
  have "round_even q = \<lfloor>q\<rfloor> \<or> round_even q = \<lfloor>q\<rfloor> + 1"
    by (simp add: round_even_def Let_def)
  then show ?thesis
    using f by (elim disjE) (simp_all, linarith+)
qed

lemma rnd_binade:
  assumes lo: "2 ^ k \<le> \<bar>x\<bar>" and hi: "\<bar>x\<bar> < 2 ^ Suc k" and k: "k \<le> 52"
  shows "rnd x = Fin (of_int (round_even (x * 2 ^ (52 - k))) / 2 ^ (52 - k))"
proof -
  have pos: "0 < \<bar>x\<bar>"
  proof -
    have "(0 :: real) < 2 ^ k" by simp
    with lo show ?thesis by linarith
  qed
  have "(2 :: real) powr real k = 2 ^ k" by (simp add: powr_realpow)
  with lo have "2 powr real k \<le> \<bar>x\<bar>" by simp
  then have l1: "real k \<le> log 2 \<bar>x\<bar>"
    using pos by (subst le_log_iff) auto
  have "(2 :: real) powr real (Suc k) = 2 ^ Suc k" by (simp only: powr_realpow zero_less_numeral)
  with hi have "\<bar>x\<bar> < 2 powr real (Suc k)" by simp
  then have l2: "log 2 \<bar>x\<bar> < real (Suc k)"
    using pos by (subst log_less_iff) auto
  have fl: "\<lfloor>log 2 \<bar>x\<bar>\<rfloor> = int k"
    using l1 l2 by (intro floor_unique) auto
  have e: "max (- 1074) (int k - 52) = - int (52 - k)" using k by simp
  have p: "2 powr of_int (- int (52 - k)) = 1 / (2 :: real) ^ (52 - k)"
    by (simp add: powr_minus powr_realpow divide_simps)
  define n where "n = round_even (x * 2 ^ (52 - k))"
  have n: "\<bar>real_of_int n\<bar> \<le> \<bar>x\<bar> * 2 ^ (52 - k) + 1"
    unfolding n_def using round_even_bounds[of "x * 2 ^ (52 - k)"]
    by (simp add: abs_mult)
  have "\<bar>x\<bar> * 2 ^ (52 - k) < 2 ^ Suc k * 2 ^ (52 - k)"
    using hi by simp
  also have "\<dots> = (2 :: real) ^ 53"
    using k by (simp add: power_add[symmetric] del: power_Suc)
  finally have "\<bar>real_of_int n\<bar> < 2 ^ 53 + 1" using n by linarith
  moreover have "1 \<le> (2 :: real) ^ (52 - k)" by simp
  ultimately have "\<bar>real_of_int n\<bar> / 2 ^ (52 - k) < 2 ^ 53 + 1"
  proof -
    assume n53: "\<bar>real_of_int n\<bar> < 2 ^ 53 + 1" and one: "1 \<le> (2 :: real) ^ (52 - k)"
    have "\<bar>real_of_int n\<bar> / 2 ^ (52 - k) \<le> \<bar>real_of_int n\<bar> / 1"
      using one by (intro divide_left_mono) simp_all
    with n53 show ?thesis by simp
  qed
  also have "\<dots> \<le> (2 :: real) ^ 1024"
  proof -
    have "(2 :: real) ^ 54 \<le> 2 ^ 1024" by (rule power_increasing) simp_all
    then show ?thesis by simp
  qed
  finally have small: "\<not> 2 ^ 1024 \<le> \<bar>real_of_int n / 2 ^ (52 - k)\<bar>"
    by simp
  have "x \<noteq> 0" using pos by auto
  then show ?thesis
    using small unfolding rnd_def Let_def fl e p n_def by simp
qed


lemma round_even_near:
  assumes "real_of_int n - 1 / 2 < q" and "q < real_of_int n + 1 / 2"
  shows "round_even q = n"
proof -
  have "\<lfloor>q\<rfloor> = n \<or> \<lfloor>q\<rfloor> = n - 1"
    using assms by (simp add: floor_eq_iff) linarith
  then show ?thesis
  proof
    assume f: "\<lfloor>q\<rfloor> = n"
    with assms show ?thesis by (simp add: round_even_def Let_def)
  next
    assume f: "\<lfloor>q\<rfloor> = n - 1"
    with assms show ?thesis by (simp add: round_even_def Let_def)
  qed
qed

lemma rnd_half_binade:
  assumes lo: "1 / 2 \<le> \<bar>x\<bar>" and hi: "\<bar>x\<bar> < 1"
  shows "rnd x = Fin (of_int (round_even (x * 2 ^ 53)) / 2 ^ 53)"
proof -
  have pos: "0 < \<bar>x\<bar>" using lo by linarith
  have "(2 :: real) powr (- 1) = 1 / 2" by (simp add: powr_minus)
  with lo have "2 powr (- 1) \<le> \<bar>x\<bar>" by simp
  then have l1: "- 1 \<le> log 2 \<bar>x\<bar>"
    using pos by (subst le_log_iff) auto
  have l2: "log 2 \<bar>x\<bar> < 0"
    using pos hi by simp
  have fl: "\<lfloor>log 2 \<bar>x\<bar>\<rfloor> = - 1"
    using l1 l2 by (intro floor_unique) auto
  have p: "(2 :: real) powr - 53 = 1 / 2 ^ 53"
    by (simp add: powr_minus divide_simps)
  define n where "n = round_even (x * 2 ^ 53)"
  have n: "\<bar>real_of_int n\<bar> \<le> \<bar>x\<bar> * 2 ^ 53 + 1"
    unfolding n_def using round_even_bounds[of "x * 2 ^ 53"]
    by (simp add: abs_mult)
  have "\<bar>x\<bar> * 2 ^ 53 < 1 * 2 ^ 53"
    using hi by (intro mult_strict_right_mono) simp_all
  with n have "\<bar>real_of_int n\<bar> < 2 ^ 53 + 1" by linarith
  then have "\<bar>real_of_int n\<bar> / 2 ^ 53 < (2 ^ 53 + 1) / 2 ^ 53"
    by (intro divide_strict_right_mono) simp_all
  also have "\<dots> \<le> (2 :: real) ^ 1024"
  proof -
    have "(1 :: real) \<le> 2 ^ 1023" by simp
    then show ?thesis by simp
  qed
  finally have small: "\<not> 2 ^ 1024 \<le> \<bar>real_of_int n / 2 ^ 53\<bar>"
    by simp
  have "x \<noteq> 0" using pos by auto
  then show ?thesis
    using small unfolding rnd_def Let_def fl n_def by (simp add: p del: power_numeral)
qed

lemma sqrt_between:
  assumes "0 \<le> a" and "a\<^sup>2 < y" and "0 \<le> b" and "y < b\<^sup>2"
  shows "a < sqrt y \<and> sqrt y < b"
  using assms by (simp add: real_less_rsqrt real_less_lsqrt)

lemma sqrt_2: "rnd (sqrt 2) = Fin (6369051672525773 / 2 ^ 52)"
proof -
  have b: "(6369051672525773 - 1 / 2) / 2 ^ 52 < sqrt 2
         \<and> sqrt 2 < (6369051672525773 + 1 / 2) / 2 ^ 52"
    by (rule sqrt_between) (simp_all add: power2_eq_square)
  then have q: "real_of_int 6369051672525773 - 1 / 2 < sqrt 2 * 2 ^ 52"
    "sqrt 2 * 2 ^ 52 < real_of_int 6369051672525773 + 1 / 2"
    by (simp_all add: field_simps)
  have r: "round_even (sqrt 2 * 2 ^ 52) = 6369051672525773"
    using q by (rule round_even_near)
  have lo: "2 ^ 0 \<le> \<bar>sqrt 2\<bar>" by simp
  have hi: "\<bar>sqrt 2\<bar> < 2 ^ Suc 0"
    using b by simp
  show ?thesis
    using rnd_binade[OF lo hi] r by simp
qed


text \<open>
  Roundings that the examples below meet: 7.5 and its predecessor 7.499999999999999 are
  doubles, their sum lies half-way between two doubles and is rounded to the even one, 15.0;
  the square roots of 2 and 18, the products of the norms and the quotient are rounded as
  double arithmetic rounds them.
\<close>

lemma rnd_7_5: "rnd (15 / 2) = Fin (15 / 2)"
  by (subst rnd_binade[where k = 2]) (simp_all add: round_even_def Let_def)

lemma rnd_below_7_5: "rnd (15 / 2 - 1 / 2 ^ 50) = Fin (15 / 2 - 1 / 2 ^ 50)"
  by (subst rnd_binade[where k = 2]) (simp_all add: round_even_def Let_def)

lemma rnd_tie_15: "rnd (15 / 2 + (15 / 2 - 1 / 2 ^ 50)) = Fin 15"
  by (subst rnd_binade[where k = 3]) (simp_all add: round_even_def Let_def)

lemma sqrt_18: "rnd (sqrt 18) = Fin (4776788754394329 / 2 ^ 50)"
proof -
  have b: "(4776788754394329 - 1 / 2) / 2 ^ 50 < sqrt 18
         \<and> sqrt 18 < (4776788754394329 + 1 / 2) / 2 ^ 50"
    by (rule sqrt_between) (simp_all add: power2_eq_square)
  then have q: "real_of_int 4776788754394329 - 1 / 2 < sqrt 18 * 2 ^ 50"
    "sqrt 18 * 2 ^ 50 < real_of_int 4776788754394329 + 1 / 2"
    by (simp_all add: field_simps)
  have r: "round_even (sqrt 18 * 2 ^ 50) = 4776788754394329"
    using q by (rule round_even_near)
  have "4 < sqrt 18 \<and> sqrt 18 < 8"
    by (rule sqrt_between) simp_all
  then have lo: "2 ^ 2 \<le> \<bar>sqrt 18\<bar>" and hi: "\<bar>sqrt 18\<bar> < 2 ^ Suc 2"
    by simp_all
  show ?thesis
    using rnd_binade[OF lo hi] r by simp
qed

lemma norm_product_ann:
  "rnd (6369051672525773 / 2 ^ 52 * (6369051672525773 / 2 ^ 52))
     = Fin (4503599627370497 / 2 ^ 51)"
proof -
  let ?x = "6369051672525773 / 2 ^ 52 * (6369051672525773 / 2 ^ 52) :: real"
  have r: "round_even (?x * 2 ^ 51) = 4503599627370497"
    by (rule round_even_near) simp_all
  have lo: "2 ^ 1 \<le> \<bar>?x\<bar>" and hi: "\<bar>?x\<bar> < 2 ^ Suc 1"
    by simp_all
  show ?thesis
    using rnd_binade[OF lo hi] r by simp
qed

lemma norm_product_bob:
  "rnd (6369051672525773 / 2 ^ 52 * (4776788754394329 / 2 ^ 50)) = Fin 6"
proof -
  let ?x = "6369051672525773 / 2 ^ 52 * (4776788754394329 / 2 ^ 50) :: real"
  have r: "round_even (?x * 2 ^ 50) = 6755399441055744"
    by (rule round_even_near) simp_all
  have lo: "2 ^ 2 \<le> \<bar>?x\<bar>" and hi: "\<bar>?x\<bar> < 2 ^ Suc 2"
    by simp_all
  show ?thesis
    using rnd_binade[OF lo hi] r by simp
qed

lemma quotient_ann:
  "rnd (2 / (4503599627370497 / 2 ^ 51)) = Fin (4503599627370495 / 2 ^ 52)"
proof -
  let ?x = "2 / (4503599627370497 / 2 ^ 51) :: real"
  have r: "round_even (?x * 2 ^ 53) = 9007199254740990"
    by (rule round_even_near) simp_all
  have lo: "1 / 2 \<le> \<bar>?x\<bar>" and hi: "\<bar>?x\<bar> < 1"
    by simp_all
  show ?thesis
    using rnd_half_binade[OF lo hi] r by simp
qed

lemma flt_not_fgt: "flt a b \<Longrightarrow> \<not> fgt a b"
  by (cases a; cases b) (auto simp: fgt_def)

lemma flt_not_fge: "flt a b \<Longrightarrow> \<not> fge a b"
  by (cases a; cases b) (auto simp: fge_def)

lemma fgt_not_fge: "fgt a b \<Longrightarrow> \<not> fge b a"
  by (cases a; cases b) (auto simp: fgt_def fge_def)

lemma fgt_trans: "fgt a b \<Longrightarrow> fgt b c \<Longrightarrow> fgt a c"
  by (cases a; cases b; cases c) (auto simp: fgt_def)

lemma fgt_fge_trans: "fgt a b \<Longrightarrow> fge b c \<Longrightarrow> fge a c"
  by (cases a; cases b; cases c) (auto simp: fgt_def fge_def)

lemma not_fgt_below: "\<not> fgt s b \<Longrightarrow> fgt s0 b \<Longrightarrow> \<not> fge s s0"
  by (cases s; cases b; cases s0) (auto simp: fgt_def fge_def)

lemma not_fge_below: "\<not> fge s t \<Longrightarrow> fge s0 t \<Longrightarrow> \<not> fge s s0"
  by (cases s; cases t; cases s0) (auto simp: fgt_def fge_def)

section \<open>Properties of the diarizer\<close>

lemma speaker_cycle_next_cases:
  "speaker_cycle_next idx =
     (if 65 + idx < 1114112 then Inr (65 + idx, Suc idx) else Inl ValueError)"
  by (simp add: speaker_cycle_next_def py_chr_def)

lemma span_of_new_segment: "span_of (new_segment s e c) = (s, e)"
  by (simp add: span_of_def new_segment_def)

lemma speaker_label_of_A: "speaker_label_of 65 = ustr_of ''Speaker A''"
  by (simp add: speaker_label_of_def ustr_of_def)

lemma speaker_label_of_B: "speaker_label_of 66 = ustr_of ''Speaker B''"
  by (simp add: speaker_label_of_def ustr_of_def)

text \<open>Whenever the loop returns, it has appended one segment per utterance, in order.\<close>

lemma diarize_loop_spans:
  "diarize_loop mx ts idx cur tot segs = Inr out \<Longrightarrow> map span_of out = map span_of segs @ ts"
proof (induction ts arbitrary: idx cur tot segs)
  case Nil
  then show ?case by simp
next
  case (Cons u ts)
  obtain s e where u: "u = (s, e)" by (cases u)
  from Cons.prems show ?case
    unfolding u
    by (auto simp: Let_def speaker_cycle_next_cases span_of_new_segment
        split: if_splits dest!: Cons.IH)
qed

lemma diarize_spans:
  "diarize d ts = Inr segs \<Longrightarrow> map span_of segs = ts"
  by (auto simp: diarize_def speaker_cycle_next_cases split: if_splits dest: diarize_loop_spans)

text \<open>The loop returns as long as the generator stays inside the range of \<open>chr\<close>.\<close>

lemma diarize_loop_returns:
  "65 + idx + length ts \<le> 1114112 \<Longrightarrow> \<exists>out. diarize_loop mx ts idx cur tot segs = Inr out"
proof (induction ts arbitrary: idx cur tot segs)
  case Nil
  then show ?case by simp
next
  case (Cons u ts)
  obtain s e where u: "u = (s, e)" by (cases u)
  have next_ok: "65 + idx < 1114112"
    and switch: "65 + Suc idx + length ts \<le> 1114112"
    and keep: "65 + idx + length ts \<le> 1114112"
    using Cons.prems by simp_all
  show ?case
    unfolding u using next_ok Cons.IH[OF switch] Cons.IH[OF keep]
    by (simp add: Let_def speaker_cycle_next_cases)
qed

lemma diarize_returns:
  "length ts \<le> 1114046 \<Longrightarrow> \<exists>segs. diarize d ts = Inr segs"
  using diarize_loop_returns[of 1 ts]
  by (simp add: diarize_def speaker_cycle_next_cases)

text \<open>The arithmetic of an utterance from 0 to 15 seconds is exact.\<close>

lemma duration_0_15: "py_max (Fin 0) (fl_sub (Fin 15) (Fin 0)) = Fin 15"
  by (simp add: py_max_def fl_sub_def fgt_def rnd_small)

lemma total_0_15: "fl_add (Fin 0) (Fin 15) = Fin 15"
  by (simp add: rnd_small)

lemma diarize_loop_overflow:
  "65 + idx + n > 1114112 \<Longrightarrow> 65 + idx \<le> 1114112 \<Longrightarrow>
   diarize_loop (Fin 15) (replicate n (Fin 0, Fin 15)) idx cur (Fin 0) segs = Inl ValueError"
proof (induction n arbitrary: idx cur segs)
  case 0
  then show ?case by simp
next
  case (Suc n)
  have step: "diarize_loop (Fin 15) ((Fin 0, Fin 15) # ts) idx cur (Fin 0) segs =
      (case speaker_cycle_next idx of
         Inl err \<Rightarrow> Inl err
       | Inr (c, idx') \<Rightarrow>
           diarize_loop (Fin 15) ts idx' c (Fin 0) (segs @ [new_segment (Fin 0) (Fin 15) c]))"
    for ts
    by (simp add: duration_0_15 rnd_small Let_def fgt_def fge_def)
  show ?case
  proof (cases "65 + idx < 1114112")
    case True
    have "diarize_loop (Fin 15) (replicate n (Fin 0, Fin 15)) (Suc idx) (65 + idx) (Fin 0)
            (segs @ [new_segment (Fin 0) (Fin 15) (65 + idx)]) = Inl ValueError"
      using Suc.prems True by (intro Suc.IH) simp_all
    with True show ?thesis
      by (simp add: step speaker_cycle_next_cases del: diarize_loop.simps)
  next
    case False
    then show ?thesis
      by (simp add: step speaker_cycle_next_cases del: diarize_loop.simps)
  qed
qed

text \<open>
  C2. The claim: for every sequence of utterance time spans \<open>diarize\<close> returns a sequence of
  segments of the same length and in the same order. Whenever \<open>diarize\<close> returns, that is so
  (\<open>diarize_spans\<close>), and it returns for every input of at most 1114046 utterances
  (\<open>diarize_returns\<close>). It does not return for every input: each label switch takes
  \<open>chr(ord("A") + idx)\<close> for the next \<open>idx\<close>, and on 1114047 utterances of 15 seconds each,
  with the default window of 15 seconds, the last switch asks \<open>chr\<close> for a code point
  outside its range, so the call raises ValueError instead of returning segments.
\<close>

theorem diarize_label_overflow:
  "diarize (SimpleEnergyDiarizer_init None None) (replicate 1114047 (Fin 0, Fin 15))
     = Inl ValueError"
proof -
  have "diarize_loop (Fin 15) (replicate 1114047 (Fin 0, Fin 15)) 1 65 (Fin 0) []
      = Inl ValueError"
    by (rule diarize_loop_overflow) simp_all
  then show ?thesis
    by (simp add: diarize_def SimpleEnergyDiarizer_init_def float_or_def MAX_SEGMENT_DURATION_def
        speaker_cycle_next_cases)
qed

text \<open>The duration of the utterance from 0 to 20 seconds is computed without rounding.\<close>

lemma duration_0_20: "utterance_duration (Fin 0, Fin 20) = Fin 20"
  by (simp add: utterance_duration_def py_max_def fl_sub_def fgt_def rnd_small)

text \<open>
  The running total is rounded. Two utterances of 7.5 and 7.499999999999999 seconds have an
  exact sum below 15; the total the loop computes is 15.0, which reaches the default
  window, and the second segment is labelled "Speaker B".
\<close>

lemma diarize_rounded_total:
  "diarize (SimpleEnergyDiarizer_init None None)
     [(Fin 0, Fin (15 / 2)), (Fin 0, Fin (15 / 2 - 1 / 2 ^ 50))]
   = Inr [new_segment (Fin 0) (Fin (15 / 2)) 65,
          new_segment (Fin 0) (Fin (15 / 2 - 1 / 2 ^ 50)) 66]"
proof -
  have d1: "py_max (Fin 0) (fl_sub (Fin (15 / 2)) (Fin 0)) = Fin (15 / 2)"
    by (simp add: py_max_def fl_sub_def fgt_def rnd_7_5)
  have d2: "py_max (Fin 0) (fl_sub (Fin (15 / 2 - 1 / 2 ^ 50)) (Fin 0))
      = Fin (15 / 2 - 1 / 2 ^ 50)"
    using rnd_below_7_5 by (simp add: py_max_def fl_sub_def fgt_def)
  have t1: "fl_add (Fin 0) (Fin (15 / 2)) = Fin (15 / 2)"
    by (simp add: rnd_7_5)
  have t2: "fl_add (Fin (15 / 2)) (Fin (15 / 2 - 1 / 2 ^ 50)) = Fin 15"
    using rnd_tie_15 by simp
  have mx: "max_duration (SimpleEnergyDiarizer_init None None) = Fin 15"
    by (simp add: SimpleEnergyDiarizer_init_def float_or_def MAX_SEGMENT_DURATION_def)
  have "diarize_loop (Fin 15) [(Fin 0, Fin (15 / 2)), (Fin 0, Fin (15 / 2 - 1 / 2 ^ 50))]
          1 65 (Fin 0) []
      = Inr [new_segment (Fin 0) (Fin (15 / 2)) 65,
             new_segment (Fin 0) (Fin (15 / 2 - 1 / 2 ^ 50)) 66]"
    unfolding diarize_loop.simps Let_def d1 d2 t1 t2
    by (simp add: fgt_def fge_def speaker_cycle_next_def py_chr_def)
  then show ?thesis
    by (simp add: diarize_def mx speaker_cycle_next_def py_chr_def)
qed

text \<open>
  C3, as the claim states it: on the single utterance \<open>(0, 20)\<close> with a window of 15 seconds
  the emitted segment would carry the first label, "Speaker A". It does not.
\<close>

theorem diarize_first_utterance_not_A:
  "diarize (SimpleEnergyDiarizer_init None (Some (Fin 15))) [(Fin 0, Fin 20)]
     \<noteq> Inr [\<lparr>seg_start = Fin 0, seg_end = Fin 20, seg_speaker_label = ustr_of ''Speaker A'',
              seg_confidence = Fin (1 / 2)\<rparr>]"
proof -
  have d: "py_max (Fin 0) (fl_sub (Fin 20) (Fin 0)) = Fin 20"
    using duration_0_20 by (simp add: utterance_duration_def)
  show ?thesis
    by (simp add: diarize_def SimpleEnergyDiarizer_init_def float_or_def speaker_cycle_next_cases
        new_segment_def speaker_label_of_def ustr_of_def d rnd_small fge_def fgt_def Let_def)
qed

text \<open>
  C3, amended. On a single utterance \<open>diarize\<close> returns a single segment. The test on the
  utterance's own duration is skipped, since no segment has been emitted yet, but the test on
  the running total follows and is met as soon as the duration, added to the total 0.0,
  reaches the window: the segment then carries the second label, "Speaker B", and the first
  label, "Speaker A", only when it stays below the window. For \<open>(0, 20)\<close> and a window of 15
  seconds the label is "Speaker B".
\<close>

theorem diarize_single_utterance:
  "diarize d [(s, e)] =
     Inr [\<lparr>seg_start = s, seg_end = e,
           seg_speaker_label =
             (if fge (fl_add (Fin 0) (utterance_duration (s, e))) (max_duration d)
              then ustr_of ''Speaker B'' else ustr_of ''Speaker A''),
           seg_confidence = Fin (1 / 2)\<rparr>]"
  by (simp add: diarize_def speaker_cycle_next_cases Let_def new_segment_def
      utterance_duration_def speaker_label_of_A speaker_label_of_B)

theorem diarize_single_utterance_witness:
  "diarize (SimpleEnergyDiarizer_init None (Some (Fin 15))) [(Fin 0, Fin 20)] =
     Inr [\<lparr>seg_start = Fin 0, seg_end = Fin 20, seg_speaker_label = ustr_of ''Speaker B'',
           seg_confidence = Fin (1 / 2)\<rparr>]"
  using diarize_single_utterance [of "SimpleEnergyDiarizer_init None (Some (Fin 15))" "Fin 0" "Fin 20"]
  by (simp add: SimpleEnergyDiarizer_init_def float_or_def duration_0_20 rnd_small fge_def)

text \<open>While no test is met the loop keeps its label.\<close>

lemma diarize_loop_quiet:
  assumes "\<forall>u \<in> set ts. flt (utterance_duration u) mx"
    and "\<forall>k. 1 \<le> k \<and> k \<le> length ts \<longrightarrow>
           flt (foldl fl_add tot (map utterance_duration (take k ts))) mx"
  shows "diarize_loop mx ts idx cur tot segs =
           Inr (segs @ map (\<lambda>(s, e). new_segment s e cur) ts)"
  using assms
proof (induction ts arbitrary: tot segs)
  case Nil
  then show ?case by simp
next
  case (Cons u ts)
  obtain s e where u: "u = (s, e)" by (cases u)
  define dur where "dur = py_max (Fin 0) (fl_sub e s)"
  have dur: "utterance_duration u = dur"
    by (simp add: u utterance_duration_def dur_def)
  have "flt dur mx"
    using Cons.prems(1) by (simp add: dur)
  then have d: "\<not> fgt dur mx" by (rule flt_not_fgt)
  have "flt (foldl fl_add tot (map utterance_duration (take 1 (u # ts)))) mx"
    by (intro Cons.prems(2)[rule_format]) simp
  then have "flt (fl_add tot dur) mx"
    by (simp add: dur)
  then have t: "\<not> fge (fl_add tot dur) mx" by (rule flt_not_fge)
  have rest: "\<forall>k. 1 \<le> k \<and> k \<le> length ts \<longrightarrow>
      flt (foldl fl_add (fl_add tot dur) (map utterance_duration (take k ts))) mx"
  proof (intro allI impI)
    fix k assume k: "1 \<le> k \<and> k \<le> length ts"
    have "flt (foldl fl_add tot (map utterance_duration (take (Suc k) (u # ts)))) mx"
      using k by (intro Cons.prems(2)[rule_format]) simp
    then show "flt (foldl fl_add (fl_add tot dur) (map utterance_duration (take k ts))) mx"
      by (simp add: dur)
  qed
  have "diarize_loop mx ts idx cur (fl_add tot dur) (segs @ [new_segment s e cur])
      = Inr ((segs @ [new_segment s e cur]) @ map (\<lambda>(s, e). new_segment s e cur) ts)"
    using Cons.prems(1) rest by (intro Cons.IH) simp_all
  with d t show ?case
    by (simp add: u Let_def dur_def[symmetric])
qed

text \<open>
  C4. If every utterance duration is below the window and no sum of the durations of a
  non-empty prefix reaches the window, \<open>diarize\<close> returns one segment per utterance and every
  segment carries the initial label, "Speaker A". The durations and the sums are the doubles
  that the loop computes: the rounded difference \<open>end - start\<close>, clamped at 0.0, and the
  running total of these, rounded at each addition.
\<close>

theorem diarize_one_label:
  assumes "\<forall>u \<in> set ts. flt (utterance_duration u) (max_duration d)"
    and "\<forall>k. 1 \<le> k \<and> k \<le> length ts \<longrightarrow> flt (running_total (take k ts)) (max_duration d)"
  shows "\<exists>segs. diarize d ts = Inr segs \<and> length segs = length ts
           \<and> (\<forall>seg \<in> set segs. seg_speaker_label seg = ustr_of ''Speaker A'')"
proof (cases "ts = []")
  case True
  then show ?thesis by (simp add: diarize_def)
next
  case False
  have "diarize_loop (max_duration d) ts 1 65 (Fin 0) [] =
          Inr ([] @ map (\<lambda>(s, e). new_segment s e 65) ts)"
    using assms by (intro diarize_loop_quiet) (simp_all add: running_total_def)
  with False have "diarize d ts = Inr (map (\<lambda>(s, e). new_segment s e 65) ts)"
    by (simp add: diarize_def speaker_cycle_next_cases)
  then show ?thesis
    by (auto simp: new_segment_def speaker_label_of_A)
qed

theorem diarize_one_label_witness:
  "\<exists>segs. diarize (SimpleEnergyDiarizer_init None None) [(Fin 0, Fin 5), (Fin 5, Fin 10)]
            = Inr segs
     \<and> length segs = 2
     \<and> (\<forall>seg \<in> set segs. seg_speaker_label seg = ustr_of ''Speaker A'')"
proof -
  let ?d = "SimpleEnergyDiarizer_init None None"
  let ?ts = "[(Fin 0, Fin 5), (Fin 5, Fin 10)]"
  have mx: "max_duration ?d = Fin 15"
    by (simp add: SimpleEnergyDiarizer_init_def float_or_def MAX_SEGMENT_DURATION_def)
  have d1: "utterance_duration (Fin 0, Fin 5) = Fin 5"
    and d2: "utterance_duration (Fin 5, Fin 10) = Fin 5"
    by (simp_all add: utterance_duration_def py_max_def fl_sub_def fgt_def rnd_small)
  have h1: "\<forall>u \<in> set ?ts. flt (utterance_duration u) (max_duration ?d)"
    by (simp add: mx d1 d2)
  have h2: "\<forall>k. 1 \<le> k \<and> k \<le> length ?ts \<longrightarrow>
              flt (running_total (take k ?ts)) (max_duration ?d)"
  proof (intro allI impI)
    fix k :: nat assume "1 \<le> k \<and> k \<le> length ?ts"
    then have "k = 1 \<or> k = Suc 1" by auto
    then show "flt (running_total (take k ?ts)) (max_duration ?d)"
      by (auto simp: mx running_total_def d1 d2 rnd_small)
  qed
  show ?thesis
    using diarize_one_label [OF h1 h2] by (simp add: numeral_2_eq_2)
qed

section \<open>Properties of feature extraction\<close>

lemma total_words_hello_world: "total_words [''hello world''] = 2"
  by code_simp

lemma total_words_one_two_three: "total_words [''one two three''] = 3"
  by code_simp

text \<open>
  C5, as the claim states it: the speaking rate would be the word count divided by
  \<open>max(1.0, duration_minutes)\<close>, and 0.0 on a span whose duration is not positive. On the
  span \<open>(0, 0)\<close> with the two words "hello world" the claim's quotient is 2 and its guard
  gives 0, while the field holds 120.
\<close>

theorem speaking_rate_empty_span:
  "speaking_rate (extract_features [0] [0] [0] [''hello world''] 0 0) = 120
     \<and> real (total_words [''hello world'']) / max 1 (max 1 (0 - 0) / 60) = 2"
  by (simp add: extract_features_def compute_speaking_rate_def total_words_hello_world)

text \<open>
  C5, amended. The \<open>speaking_rate\<close> field is the whitespace-split word count of the texts
  divided by the duration in minutes, where the duration is \<open>max(1.0, end - start)\<close> seconds
  and the minutes are not clamped again. The span is clamped to one second before
  \<open>compute_speaking_rate\<close> sees it, so its guard for a non-positive duration is never taken
  from here: on a span whose duration is at most 0 the rate is 60 times the word count.
\<close>

theorem speaking_rate_formula:
  "speaking_rate (extract_features pitch energy centroid texts s e) =
     real (total_words texts) / (max 1 (e - s) / 60)
   \<and> (e - s \<le> 0 \<longrightarrow>
        speaking_rate (extract_features pitch energy centroid texts s e) =
          60 * real (total_words texts))"
  by (simp add: extract_features_def compute_speaking_rate_def max_def)

theorem speaking_rate_formula_witness:
  "(2::real) - 2 \<le> 0
   \<and> speaking_rate (extract_features [0] [0] [0] [''one two three''] 2 2) = 180"
  using speaking_rate_formula [of "[0]" "[0]" "[0]" "[''one two three'']" 2 2]
  by (simp add: total_words_one_two_three)

section \<open>Properties of the keyword pass\<close>

lemma count_filter:
  "distinct ks \<Longrightarrow>
     sum_list (map (\<lambda>k. count_list xs k) ks) = length (filter (\<lambda>x. x \<in> set ks) xs)"
proof (induction xs)
  case Nil
  then show ?case by simp
next
  case (Cons x xs)
  have "sum_list (map (\<lambda>k. if x = k then 1 else 0) ks) = (if x \<in> set ks then 1 else (0::nat))"
    using Cons.prems by (induction ks) auto
  moreover have "sum_list (map (\<lambda>k. count_list (x # xs) k) ks)
      = sum_list (map (\<lambda>k. if x = k then 1 else 0) ks) + sum_list (map (\<lambda>k. count_list xs k) ks)"
    by (induction ks) auto
  ultimately show ?case using Cons by simp
qed

lemma count_filter_map:
  "distinct ks \<Longrightarrow>
     sum_list (map (\<lambda>k. count_list (map f xs) k) ks) = length (filter (\<lambda>x. f x \<in> set ks) xs)"
proof -
  assume "distinct ks"
  then have "sum_list (map (\<lambda>k. count_list (map f xs) k) ks)
      = length (filter (\<lambda>x. x \<in> set ks) (map f xs))"
    by (rule count_filter)
  also have "\<dots> = length (filter (\<lambda>x. f x \<in> set ks) xs)"
    by (induction xs) auto
  finally show ?thesis .
qed

text \<open>
  C9, as the claim states it: only trailing punctuation would be stripped, so the token
  "!happy" would not be counted. It is counted.
\<close>

theorem keyword_scores_leading_punctuation:
  "map_of (keyword_scores ''!happy'') ''happy'' = Some 1"
  by code_simp

text \<open>
  C9, amended. Each of the five category scores is the number of whitespace-delimited tokens
  of the combined text that, stripped of the characters \<open>. , ! ?\<close> at both ends (leading as
  well as trailing) and lower-cased, are one of the category's keywords. A token with
  leading punctuation such as "!happy" is therefore counted.
\<close>

theorem keyword_scores_count:
  "keyword_scores combined_text =
     map (\<lambda>(metric, kws).
           (metric, real (length (filter
              (\<lambda>token. py_lower (rev (dropWhile (\<lambda>c. c \<in> set ''.,!?'')
                          (rev (dropWhile (\<lambda>c. c \<in> set ''.,!?'') token)))) \<in> set kws)
              (py_split combined_text)))))
       BASIC_EMOTION_KEYWORDS"
proof -
  define f where "f = (\<lambda>token. py_lower (rev (dropWhile (\<lambda>c. c \<in> set ''.,!?'')
                       (rev (dropWhile (\<lambda>c. c \<in> set ''.,!?'') token)))))"
  have tokens: "counted_tokens combined_text = map f (py_split combined_text)"
    by (simp add: counted_tokens_def py_strip_chars_def strip_where_def f_def)
  have d: "distinct kws" if "(metric, kws) \<in> set BASIC_EMOTION_KEYWORDS" for metric kws
    using that by (auto simp: BASIC_EMOTION_KEYWORDS_def)
  have "keyword_scores combined_text =
      map (\<lambda>(metric, kws).
            (metric, real (length (filter (\<lambda>token. f token \<in> set kws) (py_split combined_text)))))
        BASIC_EMOTION_KEYWORDS"
    unfolding keyword_scores_def Let_def tokens
    by (rule map_cong[OF refl]) (auto simp only: count_filter_map[OF d] split: prod.splits)
  then show ?thesis
    unfolding f_def .
qed

theorem keyword_scores_count_witness:
  "keyword_scores ''So happy, glad! ?fun?'' =
     [(''excited'', 0), (''angry'', 0), (''happy'', 2), (''sad'', 0), (''fun'', 1)]"
  by (subst keyword_scores_count) code_simp

section \<open>Properties of speaker matching\<close>

lemma match_loop_step_skip:
  "skipped tm (row_name x) \<Longrightarrow>
     match_loop sim v tm (x # rows) bs b = match_loop sim v tm rows bs b"
  by (cases x) (simp add: row_name_def)

lemma match_loop_step_score:
  "\<not> skipped tm (row_name x) \<Longrightarrow> row_score sim v x = Inr score \<Longrightarrow>
   match_loop sim v tm (x # rows) bs b =
     (if fgt score bs \<and> fge score FEATURE_SIMILARITY_THRESHOLD
      then match_loop sim v tm rows score (Some (match_of x score))
      else match_loop sim v tm rows bs b)"
  by (cases x) (simp add: row_name_def row_score_def match_of_def row_id_def)

lemma match_loop_step_error:
  "\<not> skipped tm (row_name x) \<Longrightarrow> row_score sim v x = Inl err \<Longrightarrow>
   match_loop sim v tm (x # rows) bs b = Inl err"
  by (cases x) (simp add: row_name_def row_score_def)

text \<open>
  The invariant of the loop: either the best match is unchanged and every row was rejected,
  or the result is a row that beat the best score and reached the threshold, with every
  row before it below its score and every row after it at most its score.
\<close>

lemma match_loop_inv:
  assumes "match_loop sim v tm rows bs b = Inr r"
  shows "(r = b \<and> (\<forall>x \<in> set rows. row_rejected sim v tm bs x))
       \<or> (\<exists>pre row post s0. rows = pre @ row # post
            \<and> \<not> skipped tm (row_name row)
            \<and> row_score sim v row = Inr s0
            \<and> r = Some (match_of row s0)
            \<and> fgt s0 bs \<and> fge s0 FEATURE_SIMILARITY_THRESHOLD
            \<and> (\<forall>x \<in> set pre. row_below sim v tm s0 x)
            \<and> (\<forall>x \<in> set post. row_at_most sim v tm s0 x))"
    (is "?A rows bs b \<or> ?B rows bs")
  using assms
proof (induction rows arbitrary: bs b)
  case Nil
  then show ?case by simp
next
  case (Cons x rows)
  show ?case
  proof (cases "skipped tm (row_name x)")
    case True
    then have x_below: "row_below sim v tm s x" and x_rej: "row_rejected sim v tm s x" for s
      by (simp_all add: row_below_def row_rejected_def)
    from Cons.prems True have "match_loop sim v tm rows bs b = Inr r"
      by (simp add: match_loop_step_skip)
    from Cons.IH[OF this] show ?thesis
    proof
      assume "?A rows bs b"
      then have "?A (x # rows) bs b" using x_rej by simp
      then show ?thesis ..
    next
      assume "?B rows bs"
      then obtain pre row post s0 where B: "rows = pre @ row # post"
        "\<not> skipped tm (row_name row)" "row_score sim v row = Inr s0"
        "r = Some (match_of row s0)" "fgt s0 bs" "fge s0 FEATURE_SIMILARITY_THRESHOLD"
        "\<forall>x \<in> set pre. row_below sim v tm s0 x" "\<forall>x \<in> set post. row_at_most sim v tm s0 x"
        by blast
      have "x # rows = (x # pre) @ row # post" using B(1) by simp
      moreover have "\<forall>y \<in> set (x # pre). row_below sim v tm s0 y"
        using B(7) x_below by simp
      ultimately have "?B (x # rows) bs"
        using B(2-6,8) by blast
      then show ?thesis ..
    qed
  next
    case False
    with Cons.prems obtain score where score: "row_score sim v x = Inr score"
      by (cases "row_score sim v x") (simp_all add: match_loop_step_error)
    have below: "row_below sim v tm s x \<longleftrightarrow> \<not> fge score s"
      and most: "row_at_most sim v tm s x \<longleftrightarrow> \<not> fgt score s"
      and rej: "row_rejected sim v tm s x
                  \<longleftrightarrow> \<not> (fgt score s \<and> fge score FEATURE_SIMILARITY_THRESHOLD)" for s
      using False score by (simp_all add: row_below_def row_at_most_def row_rejected_def)
    show ?thesis
    proof (cases "fgt score bs \<and> fge score FEATURE_SIMILARITY_THRESHOLD")
      case True
      from Cons.prems False score True
      have "match_loop sim v tm rows score (Some (match_of x score)) = Inr r"
        by (simp add: match_loop_step_score)
      from Cons.IH[OF this] show ?thesis
      proof
        assume A: "?A rows score (Some (match_of x score))"
        have "x # rows = [] @ x # rows" by simp
        moreover have "\<forall>y \<in> set rows. row_at_most sim v tm score y"
        proof
          fix y assume "y \<in> set rows"
          with A have y: "row_rejected sim v tm score y" by blast
          show "row_at_most sim v tm score y"
          proof (cases "skipped tm (row_name y)")
            case True
            then show ?thesis by (simp add: row_at_most_def)
          next
            case ny: False
            show ?thesis
            proof (cases "row_score sim v y")
              case (Inl err)
              with y ny show ?thesis by (simp add: row_rejected_def)
            next
              case (Inr s)
              with y ny have "\<not> (fgt s score \<and> fge s FEATURE_SIMILARITY_THRESHOLD)"
                by (simp add: row_rejected_def)
              moreover have "fge s FEATURE_SIMILARITY_THRESHOLD" if "fgt s score"
                using that True by (blast intro: fgt_fge_trans)
              ultimately have "\<not> fgt s score" by blast
              with Inr ny show ?thesis by (simp add: row_at_most_def)
            qed
          qed
        qed
        moreover have "\<forall>y \<in> set []. row_below sim v tm score y" by simp
        moreover have "r = Some (match_of x score)" using A by simp
        ultimately have "?B (x # rows) bs"
          using False score True by blast
        then show ?thesis ..
      next
        assume "?B rows score"
        then obtain pre row post s0 where B: "rows = pre @ row # post"
          "\<not> skipped tm (row_name row)" "row_score sim v row = Inr s0"
          "r = Some (match_of row s0)" "fgt s0 score" "fge s0 FEATURE_SIMILARITY_THRESHOLD"
          "\<forall>x \<in> set pre. row_below sim v tm s0 x" "\<forall>x \<in> set post. row_at_most sim v tm s0 x"
          by blast
        have "x # rows = (x # pre) @ row # post" using B(1) by simp
        moreover have "\<not> fge score s0" using B(5) by (rule fgt_not_fge)
        then have "\<forall>y \<in> set (x # pre). row_below sim v tm s0 y"
          using B(7) by (simp add: below)
        moreover have "fgt s0 bs" using B(5) True by (blast intro: fgt_trans)
        ultimately have "?B (x # rows) bs"
          using B(2-4,6,8) by blast
        then show ?thesis ..
      qed
    next
      case nope: False
      from Cons.prems False score nope
      have "match_loop sim v tm rows bs b = Inr r"
        by (simp add: match_loop_step_score)
      from Cons.IH[OF this] show ?thesis
      proof
        assume "?A rows bs b"
        moreover have "row_rejected sim v tm bs x"
          using nope by (simp add: rej)
        ultimately have "?A (x # rows) bs b" by simp
        then show ?thesis ..
      next
        assume "?B rows bs"
        then obtain pre row post s0 where B: "rows = pre @ row # post"
          "\<not> skipped tm (row_name row)" "row_score sim v row = Inr s0"
          "r = Some (match_of row s0)" "fgt s0 bs" "fge s0 FEATURE_SIMILARITY_THRESHOLD"
          "\<forall>x \<in> set pre. row_below sim v tm s0 x" "\<forall>x \<in> set post. row_at_most sim v tm s0 x"
          by blast
        have "x # rows = (x # pre) @ row # post" using B(1) by simp
        moreover have "\<not> fge score s0"
          using nope B(5) B(6) not_fgt_below not_fge_below by blast
        then have "\<forall>y \<in> set (x # pre). row_below sim v tm s0 y"
          using B(7) by (simp add: below)
        ultimately have "?B (x # rows) bs"
          using B(2-6,8) by blast
        then show ?thesis ..
      qed
    qed
  qed
qed

lemma row_below_iff:
  "\<not> skipped tm (row_name r) \<Longrightarrow>
     row_below sim v tm s0 r \<longleftrightarrow> (\<exists>s. row_score sim v r = Inr s \<and> \<not> fge s s0)"
  by (cases "row_score sim v r") (simp_all add: row_below_def)

lemma row_at_most_iff:
  "\<not> skipped tm (row_name r) \<Longrightarrow>
     row_at_most sim v tm s0 r \<longleftrightarrow> (\<exists>s. row_score sim v r = Inr s \<and> \<not> fgt s s0)"
  by (cases "row_score sim v r") (simp_all add: row_at_most_def)

lemma match_loop_empty_team:
  "match_loop sim v (Some []) rows bs b = match_loop sim v None rows bs b"
  by (induction rows arbitrary: bs b) (auto simp: skipped_def split: sum.splits)

text \<open>The similarities of the one-entry vectors used below are computed without rounding.\<close>

lemma cosine_2_1: "cosine_similarity [Fin 2] [Fin 1] = Inr (Fin 1)"
  by (simp add: cosine_similarity_def py_sum_def rnd_small)

lemma cosine_2_2: "cosine_similarity [Fin 2] [Fin 2] = Inr (Fin 1)"
  by (simp add: cosine_similarity_def py_sum_def rnd_small)

lemmas match_eval =
  match_speaker_def vectorize_def skipped_def cosine_2_1 cosine_2_2 fgt_def fge_def
  FEATURE_SIMILARITY_THRESHOLD_def

lemma cosine_ann:
  "cosine_similarity [Fin 1, Fin 1] [Fin 1, Fin 1] = Inr (Fin (4503599627370495 / 2 ^ 52))"
  using norm_product_ann quotient_ann
  by (simp add: cosine_similarity_def py_sum_def rnd_small sqrt_2)

lemma cosine_bob:
  "cosine_similarity [Fin 1, Fin 1] [Fin 3, Fin 3] = Inr (Fin 1)"
  using norm_product_bob
  by (simp add: cosine_similarity_def py_sum_def rnd_small sqrt_2 sqrt_18)

lemma vectorize_1_1: "vectorize [(''a'', Fin 1), (''b'', Fin 1)] = [Fin 1, Fin 1]"
  by (simp add: vectorize_def)
lemma vectorize_3_3: "vectorize [(''a'', Fin 3), (''b'', Fin 3)] = [Fin 3, Fin 3]"
  by (simp add: vectorize_def)

text \<open>
  The scores are rounded. The profile and "ann" have the same feature vector and "bob" has
  three times that vector, so all three point in one direction; the similarity computed for
  "ann" is 0.9999999999999998 and the one computed for "bob" is 1.0, and "bob" is returned.
\<close>

lemma match_speaker_rounded_scores:
  "match_speaker cosine_similarity
     [(1, ''ann'', [(''a'', Fin 1), (''b'', Fin 1)], [], []),
      (2, ''bob'', [(''a'', Fin 3), (''b'', Fin 3)], [], [])]
     [(''a'', Fin 1), (''b'', Fin 1)] None
   = Inr (Some \<lparr>match_speaker_id = 2, match_speaker_name = ''bob'', match_score = Fin 1\<rparr>)"
  by (simp add: match_speaker_def vectorize_1_1 vectorize_3_3 cosine_ann cosine_bob skipped_def fgt_def fge_def
      FEATURE_SIMILARITY_THRESHOLD_def)

text \<open>
  C1. Whenever \<open>_match_speaker\<close> returns a candidate, the candidate is a row of the store
  that the allow-list does not skip, the returned score is the similarity computed for it
  and is at least the threshold 0.82, no row before it that is not skipped has a computed
  score that reaches the returned one, and no row after it that is not skipped has a
  computed score that exceeds it. So among the considered rows whose computed score is
  maximal the earliest one is returned. The scores are the doubles that
  \<open>_cosine_similarity\<close> returns, whatever its arithmetic.
\<close>

theorem match_speaker_threshold_and_ties:
  assumes "match_speaker similarity known features team = Inr (Some m)"
  shows "\<exists>pre row post. known = pre @ row # post
    \<and> \<not> skipped team (row_name row)
    \<and> match_speaker_id m = row_id row \<and> match_speaker_name m = row_name row
    \<and> row_score similarity (vectorize features) row = Inr (match_score m)
    \<and> fge (match_score m) FEATURE_SIMILARITY_THRESHOLD
    \<and> (\<forall>r \<in> set pre. \<not> skipped team (row_name r) \<longrightarrow>
          (\<exists>s. row_score similarity (vectorize features) r = Inr s \<and> \<not> fge s (match_score m)))
    \<and> (\<forall>r \<in> set post. \<not> skipped team (row_name r) \<longrightarrow>
          (\<exists>s. row_score similarity (vectorize features) r = Inr s \<and> \<not> fgt s (match_score m)))"
proof -
  let ?v = "vectorize features"
  from assms have "match_loop similarity ?v team known (Fin 0) None = Inr (Some m)"
    by (simp add: match_speaker_def split: if_splits)
  from match_loop_inv[OF this]
  obtain pre row post s0 where B: "known = pre @ row # post"
        "\<not> skipped team (row_name row)" "row_score similarity ?v row = Inr s0"
        "Some m = Some (match_of row s0)" "fge s0 FEATURE_SIMILARITY_THRESHOLD"
        "\<forall>x \<in> set pre. row_below similarity ?v team s0 x"
        "\<forall>x \<in> set post. row_at_most similarity ?v team s0 x"
    by blast
  have m: "match_speaker_id m = row_id row" "match_speaker_name m = row_name row"
    "match_score m = s0"
    using B(4) by (simp_all add: match_of_def)
  have pre: "\<forall>r \<in> set pre. \<not> skipped team (row_name r) \<longrightarrow>
          (\<exists>s. row_score similarity ?v r = Inr s \<and> \<not> fge s (match_score m))"
    using B(6) by (auto simp: row_below_iff[symmetric] m)
  have post: "\<forall>r \<in> set post. \<not> skipped team (row_name r) \<longrightarrow>
          (\<exists>s. row_score similarity ?v r = Inr s \<and> \<not> fgt s (match_score m))"
    using B(7) by (auto simp: row_at_most_iff[symmetric] m)
  show ?thesis
    using B(1,2,3,5) m pre post by blast
qed

text \<open>Two stored speakers with the same similarity 1.0: the earlier one, "ann", is returned.\<close>

theorem match_speaker_threshold_and_ties_witness:
  "match_speaker cosine_similarity
     [(1, ''ann'', [(''a'', Fin 1)], [], []), (2, ''bob'', [(''a'', Fin 2)], [], [])]
     [(''a'', Fin 2)] None
     = Inr (Some \<lparr>match_speaker_id = 1, match_speaker_name = ''ann'', match_score = Fin 1\<rparr>)
   \<and> fge (match_score \<lparr>match_speaker_id = 1, match_speaker_name = ''ann'',
                        match_score = Fin 1\<rparr>) FEATURE_SIMILARITY_THRESHOLD"
proof -
  have h: "match_speaker cosine_similarity
     [(1, ''ann'', [(''a'', Fin 1)], [], []), (2, ''bob'', [(''a'', Fin 2)], [], [])]
     [(''a'', Fin 2)] None
     = Inr (Some \<lparr>match_speaker_id = 1, match_speaker_name = ''ann'', match_score = Fin 1\<rparr>)"
    by (simp add: match_eval)
  from match_speaker_threshold_and_ties [OF h]
  have "fge (match_score \<lparr>match_speaker_id = 1, match_speaker_name = ''ann'',
                        match_score = Fin 1\<rparr>) FEATURE_SIMILARITY_THRESHOLD"
    by blast
  with h show ?thesis by (rule conjI)
qed

text \<open>
  C6, as the claim states it: with an empty allow-list no candidate would ever be returned.
  One is returned.
\<close>

theorem match_speaker_empty_allow_list:
  "match_speaker cosine_similarity [(1, ''ann'', [(''a'', Fin 1)], [], [])] [(''a'', Fin 2)]
     (Some [])
     = Inr (Some \<lparr>match_speaker_id = 1, match_speaker_name = ''ann'', match_score = Fin 1\<rparr>)"
  by (simp add: match_eval)

text \<open>
  C6, amended. For every non-empty allow-list, every candidate whose name is not a member is
  skipped, so \<open>_match_speaker\<close> never returns a candidate whose name is outside the
  allow-list. An empty allow-list is falsy and filters nothing: the result is the one
  obtained with no allow-list at all.
\<close>

theorem match_speaker_allow_list:
  "(tm \<noteq> [] \<and> match_speaker similarity known features (Some tm) = Inr (Some m)
      \<longrightarrow> match_speaker_name m \<in> set tm)
   \<and> match_speaker similarity known features (Some [])
       = match_speaker similarity known features None"
proof (intro conjI impI)
  assume a: "tm \<noteq> [] \<and> match_speaker similarity known features (Some tm) = Inr (Some m)"
  then have "match_loop similarity (vectorize features) (Some tm) known (Fin 0) None
      = Inr (Some m)"
    by (simp add: match_speaker_def split: if_splits)
  from match_loop_inv[OF this]
  obtain row s0 where "\<not> skipped (Some tm) (row_name row)" "Some m = Some (match_of row s0)"
    by blast
  with a show "match_speaker_name m \<in> set tm"
    by (simp add: skipped_def match_of_def)
next
  show "match_speaker similarity known features (Some [])
      = match_speaker similarity known features None"
    by (simp add: match_speaker_def match_loop_empty_team)
qed

text \<open>With the allow-list "bob" the earlier row "ann" is skipped, whatever its score.\<close>

theorem match_speaker_allow_list_witness:
  "[''bob''] \<noteq> []
   \<and> match_speaker cosine_similarity
       [(1, ''ann'', [(''a'', Fin 1)], [], []), (2, ''bob'', [(''a'', Fin 2)], [], [])]
       [(''a'', Fin 2)] (Some [''bob''])
       = Inr (Some \<lparr>match_speaker_id = 2, match_speaker_name = ''bob'', match_score = Fin 1\<rparr>)
   \<and> match_speaker_name \<lparr>match_speaker_id = 2, match_speaker_name = ''bob'',
                          match_score = Fin 1\<rparr>
       \<in> set [''bob'']"
proof -
  have h: "match_speaker cosine_similarity
       [(1, ''ann'', [(''a'', Fin 1)], [], []), (2, ''bob'', [(''a'', Fin 2)], [], [])]
       [(''a'', Fin 2)] (Some [''bob''])
       = Inr (Some \<lparr>match_speaker_id = 2, match_speaker_name = ''bob'', match_score = Fin 1\<rparr>)"
    by (simp add: match_eval)
  have ne: "[''bob''] \<noteq> []" by simp
  from match_speaker_allow_list [of "[''bob'']" cosine_similarity
      "[(1, ''ann'', [(''a'', Fin 1)], [], []), (2, ''bob'', [(''a'', Fin 2)], [], [])]"
      "[(''a'', Fin 2)]"
      "\<lparr>match_speaker_id = 2, match_speaker_name = ''bob'', match_score = Fin 1\<rparr>"] ne h
  have "match_speaker_name \<lparr>match_speaker_id = 2, match_speaker_name = ''bob'',
                          match_score = Fin 1\<rparr>
       \<in> set [''bob'']"
    by blast
  with ne h show ?thesis by blast
qed

section \<open>Properties of name inference\<close>







text \<open>
  C7. The claim: \<open>inferred_names\<close> never holds a name twice. The loop tests the lower-case
  token against the list and then appends the title-cased token, so the test does not see
  the names already appended: two turns that both say "my name is alice" yield "Alice"
  twice.
\<close>

theorem infer_names_duplicate:
  "infer_names [turn_of ''Speaker A'' (Fin 0) (Fin 5) ''my name is alice'',
                turn_of ''Speaker A'' (Fin 9) (Fin 12) ''my name is alice'']
     = Inr [ustr_of ''Alice'', ustr_of ''Alice'']"
  by code_simp




text \<open>
  C10. The claim: \<open>_infer_names\<close> returns a list for every list of turns, also when nothing
  follows the phrase. When a text ends with the phrase, the remainder splits into no token
  and taking its first element raises IndexError; the test that the name is not empty comes
  after it.
\<close>

theorem infer_names_index_error:
  "infer_names [turn_of ''Speaker A'' (Fin 0) (Fin 5) ''I am''] = Inl IndexError"
  by code_simp

end
